theory Spec2Isabelle
  imports Main
begin

section \<open>BackoffStrategy\<close>

text \<open>
  \<^verbatim>\<open>host.ts\<close> is written against a \<^verbatim>\<open>BackoffStrategy\<close> object with two methods,
  \<^verbatim>\<open>next()\<close> (returns a delay in milliseconds and advances the strategy's internal state)
  and \<^verbatim>\<open>reset()\<close>. The class itself is not among the sources, so the Host is modelled
  over any implementation of the two methods: the internal state is a type parameter
  \<open>'s\<close>, and the two methods are passed as a record of functions.
\<close>

record 's BackoffStrategy =
  "next" :: "'s \<Rightarrow> nat \<times> 's"
  reset :: "'s \<Rightarrow> 's"

text \<open>
  Modelled from the spec: the two canonical BackoffStrategy variants, whose code is
  missing from the sources (spec 3 and 4.1). Constant: \<^verbatim>\<open>next()\<close> always returns the
  same fixed delay and \<^verbatim>\<open>reset()\<close> is a no-op. Exponential: \<^verbatim>\<open>next()\<close> returns
  \<^verbatim>\<open>min(base * multiplier^attempt, cap)\<close> and increments \<^verbatim>\<open>attempt\<close>, which saturates
  once the cap is reached; \<^verbatim>\<open>reset()\<close> sets \<^verbatim>\<open>attempt = 0\<close>. The optional random
  jitter of the spec is not part of this model.
\<close>

record exp_config =
  base :: nat
  multiplier :: nat
  cap :: nat

datatype backoff = Constant nat | Exponential exp_config nat

text \<open>Modelled from the spec: a freshly configured exponential strategy starts at attempt 0.\<close>

definition new_exponential :: "exp_config \<Rightarrow> backoff" where
  "new_exponential c = Exponential c 0"

text \<open>Modelled from the spec: \<^verbatim>\<open>BackoffStrategy.next()\<close> of the two variants.\<close>

fun backoff_next :: "backoff \<Rightarrow> nat \<times> backoff" where
  "backoff_next (Constant d) = (d, Constant d)"
| "backoff_next (Exponential c a) =
     (let raw = base c * multiplier c ^ a in
      (min raw (cap c), Exponential c (if cap c \<le> raw then a else Suc a)))"

text \<open>Modelled from the spec: \<^verbatim>\<open>BackoffStrategy.reset()\<close> of the two variants.\<close>

fun backoff_reset :: "backoff \<Rightarrow> backoff" where
  "backoff_reset (Constant d) = Constant d"
| "backoff_reset (Exponential c a) = Exponential c 0"

text \<open>Modelled from the spec: the baseline delay, the first delay of a fresh strategy.\<close>

fun baseline :: "backoff \<Rightarrow> nat" where
  "baseline (Constant d) = d"
| "baseline (Exponential c a) = min (base c) (cap c)"

definition spec_strategy :: "backoff BackoffStrategy" where
  "spec_strategy = \<lparr>next = backoff_next, reset = backoff_reset\<rparr>"

text \<open>The delays returned by \<open>k\<close> consecutive \<^verbatim>\<open>next()\<close> calls with no reset in between.\<close>

fun delays :: "'s BackoffStrategy \<Rightarrow> 's \<Rightarrow> nat \<Rightarrow> nat list" where
  "delays S b 0 = []"
| "delays S b (Suc k) = (case next S b of (d, b') \<Rightarrow> d # delays S b' k)"

section \<open>Host (host.ts)\<close>

text \<open>
  \<^verbatim>\<open>constructor (public url: string, private backoff: BackoffStrategy) {}\<close>:
  a Host has exactly two fields.
\<close>

record 's Host =
  url :: string
  backoff :: 's

text \<open>
  \<^verbatim>\<open>fail () { return this.backoff.next(); }\<close>: the delay is returned, and the only
  mutation is the one \<^verbatim>\<open>next()\<close> performs on the host's backoff object.
\<close>

definition fail :: "'s BackoffStrategy \<Rightarrow> 's Host \<Rightarrow> nat \<times> 's Host" where
  "fail S h = (case next S (backoff h) of (d, b') \<Rightarrow> (d, h\<lparr>backoff := b'\<rparr>))"

text \<open>\<^verbatim>\<open>success () { this.backoff.reset(); }\<close>\<close>

definition success :: "'s BackoffStrategy \<Rightarrow> 's Host \<Rightarrow> 's Host" where
  "success S h = h\<lparr>backoff := reset S (backoff h)\<rparr>"

text \<open>The two methods a Host offers after construction, and a run of any sequence of them.\<close>

datatype host_op = Fail | Success

fun host_step :: "'s BackoffStrategy \<Rightarrow> 's Host \<Rightarrow> host_op \<Rightarrow> 's Host" where
  "host_step S h Fail = snd (fail S h)"
| "host_step S h Success = success S h"

definition host_run :: "'s BackoffStrategy \<Rightarrow> 's Host \<Rightarrow> host_op list \<Rightarrow> 's Host" where
  "host_run S h ops = foldl (host_step S) h ops"

section \<open>Pool\<close>

text \<open>
  Modelled from the spec: the Pool, whose code (\<^verbatim>\<open>require('./pool')\<close>) is missing from
  the sources (spec 3, 4.3, 6 and 7). A Pool refers to its Host objects: \<open>host_at\<close> is the
  store of the Host objects by reference, \<open>available\<close> the ordered collection of the
  eligible hosts, \<open>disabled\<close> the quarantined ones, each tagged with its scheduled
  re-admission time, and \<open>cursor\<close> the round-robin selection cursor.
\<close>

type_synonym href = nat

record 's Pool =
  host_at :: "href \<Rightarrow> 's Host"
  available :: "href list"
  disabled :: "(href \<times> nat) list"
  cursor :: nat

text \<open>
  \<^verbatim>\<open>host.fail()\<close> and \<^verbatim>\<open>host.success()\<close> called on the Host object that a reference
  of the pool points to: the object is read from the store, the method of \<^verbatim>\<open>host.ts\<close>
  runs on it, and the mutated object is written back under the same reference.
\<close>

definition fail_at :: "'s BackoffStrategy \<Rightarrow> href \<Rightarrow> 's Pool \<Rightarrow> nat \<times> 's Pool" where
  "fail_at S r p = (case fail S (host_at p r) of (d, h') \<Rightarrow> (d, p\<lparr>host_at := (host_at p)(r := h')\<rparr>))"

definition success_at :: "'s BackoffStrategy \<Rightarrow> href \<Rightarrow> 's Pool \<Rightarrow> 's Pool" where
  "success_at S r p = p\<lparr>host_at := (host_at p)(r := success S (host_at p r))\<rparr>"

text \<open>
  Modelled from the spec: the Transport, an injected capability that performs the call
  against a host's URL and returns a transport error or a status code and a body.
\<close>

datatype transport_outcome = TransportError string | Response nat string

type_synonym 'rq transport = "string \<Rightarrow> 'rq \<Rightarrow> transport_outcome"

text \<open>Modelled from the spec: the error taxonomy of spec 7.\<close>

datatype pool_error =
  DuplicateHostError
  | NoHostsAvailableError
  | AllHostsFailedError transport_outcome
  | HostNotFoundError

text \<open>
  Modelled from the spec: step 4 of \<^verbatim>\<open>dispatch\<close> counts as a failure a transport-level
  failure or a status in the configured failure range (the predicate \<open>F\<close>); anything
  else is the response returned to the caller.
\<close>

fun classify :: "(nat \<Rightarrow> bool) \<Rightarrow> transport_outcome \<Rightarrow> transport_outcome + nat \<times> string" where
  "classify F (TransportError e) = Inl (TransportError e)"
| "classify F (Response st b) = (if F st then Inl (Response st b) else Inr (st, b))"

text \<open>
  Modelled from the spec: \<^verbatim>\<open>reclaim()\<close> moves back to \<open>available\<close> every disabled host
  whose scheduled re-admission time has passed.
\<close>

definition reclaim :: "nat \<Rightarrow> 's Pool \<Rightarrow> 's Pool" where
  "reclaim now p =
     p\<lparr>available := available p @ map fst (filter (\<lambda>(r, t). t \<le> now) (disabled p)),
       disabled := filter (\<lambda>(r, t). \<not> t \<le> now) (disabled p)\<rparr>"

text \<open>
  Modelled from the spec: step 2 of \<^verbatim>\<open>dispatch\<close>, round-robin selection. The host under
  the cursor is selected and the cursor advances modulo the current size of \<open>available\<close>.
  It is only called on a non-empty \<open>available\<close> (step 1 comes first).
\<close>

definition select :: "'s Pool \<Rightarrow> href \<times> 's Pool" where
  "select p =
     (available p ! (cursor p mod length (available p)),
      p\<lparr>cursor := (cursor p + 1) mod length (available p)\<rparr>)"

text \<open>
  Modelled from the spec: the move of step 4, from \<open>available\<close> to \<open>disabled\<close>, stamped
  with the scheduled re-admission time.
\<close>

definition quarantine :: "href \<Rightarrow> nat \<Rightarrow> 's Pool \<Rightarrow> 's Pool" where
  "quarantine r until p =
     p\<lparr>available := removeAll r (available p), disabled := disabled p @ [(r, until)]\<rparr>"

text \<open>
  Modelled from the spec: steps 1 to 6 of \<^verbatim>\<open>dispatch\<close>, with \<open>n\<close> the remaining-attempts
  counter. The result is the response or the error, the URLs the Transport was invoked
  on (in order), and the pool afterwards.
\<close>

function attempts ::
  "'s BackoffStrategy \<Rightarrow> (nat \<Rightarrow> bool) \<Rightarrow> 'rq transport \<Rightarrow> nat \<Rightarrow> 'rq \<Rightarrow> nat \<Rightarrow> 's Pool
     \<Rightarrow> (pool_error + nat \<times> string) \<times> string list \<times> 's Pool" where
  "attempts S F T now rq n p =
     (if available p = [] then (Inl NoHostsAvailableError, [], p)
      else
        (case select p of (r, p1) \<Rightarrow>
           (case classify F (T (url (host_at p1 r)) rq) of
              Inl err \<Rightarrow>
                (case fail_at S r p1 of (d, p2) \<Rightarrow>
                   if n \<le> 1
                   then (Inl (AllHostsFailedError err), [url (host_at p1 r)],
                         quarantine r (now + d) p2)
                   else
                     (case attempts S F T now rq (n - 1) (quarantine r (now + d) p2) of
                        (res, tr, p3) \<Rightarrow> (res, url (host_at p1 r) # tr, p3)))
            | Inr resp \<Rightarrow> (Inr resp, [url (host_at p1 r)], success_at S r p1))))"
  by pat_completeness auto
termination
  by (relation "measure (\<lambda>(S, F, T, now, rq, n, p). n)") auto

declare attempts.simps [simp del]

text \<open>
  Modelled from the spec: a \<^verbatim>\<open>dispatch\<close> call. \<^verbatim>\<open>reclaim()\<close> runs lazily right before
  step 1, and the remaining-attempts counter is seeded to the number of hosts configured.
\<close>

definition dispatch ::
  "'s BackoffStrategy \<Rightarrow> (nat \<Rightarrow> bool) \<Rightarrow> 'rq transport \<Rightarrow> nat \<Rightarrow> 'rq \<Rightarrow> 's Pool
     \<Rightarrow> (pool_error + nat \<times> string) \<times> string list \<times> 's Pool" where
  "dispatch S F T now rq p =
     attempts S F T now rq (length (available p) + length (disabled p)) (reclaim now p)"

text \<open>
  A sequence of \<^verbatim>\<open>dispatch\<close> calls, each with the Transport behaviour, the clock reading
  and the request of its moment; the URLs selected by all the calls, in order, are
  collected.
\<close>

fun dispatches ::
  "'s BackoffStrategy \<Rightarrow> (nat \<Rightarrow> bool) \<Rightarrow> ('rq transport \<times> nat \<times> 'rq) list \<Rightarrow> 's Pool
     \<Rightarrow> string list \<times> 's Pool" where
  "dispatches S F [] p = ([], p)"
| "dispatches S F ((T, now, rq) # cs) p =
     (case dispatch S F T now rq p of
        (res, tr, p1) \<Rightarrow> (case dispatches S F cs p1 of (sel, p2) \<Rightarrow> (tr @ sel, p2)))"

section \<open>InfluxDB: interpreting a response (\<^verbatim>\<open>_parseCallback\<close>)\<close>

text \<open>
  The body handed to the callback is \<^verbatim>\<open>undefined\<close> (\<open>None\<close>) or a parsed JSON value
  (a plain string when the request was not made with \<^verbatim>\<open>json: true\<close>). An object is the
  list of its properties. Only the truthiness of a number is ever looked at, and JSON has
  no NaN, so a number is an integer here.
\<close>

datatype json =
  JNull
  | JBool bool
  | JNum int
  | JStr string
  | JArr "json list"
  | JObj "(string \<times> json) list"

datatype type_error = TypeError

text \<open>JavaScript truthiness, as \<^verbatim>\<open>if (x)\<close>, \<^verbatim>\<open>x && y\<close> and \<^verbatim>\<open>x || y\<close> test it.\<close>

fun truthy :: "json option \<Rightarrow> bool" where
  "truthy None = False"
| "truthy (Some JNull) = False"
| "truthy (Some (JBool b)) = b"
| "truthy (Some (JNum n)) = (n \<noteq> 0)"
| "truthy (Some (JStr s)) = (s \<noteq> [])"
| "truthy (Some (JArr xs)) = True"
| "truthy (Some (JObj kvs)) = True"

text \<open>
  Reading the property \<^verbatim>\<open>error\<close> or \<^verbatim>\<open>results\<close> of a value, \<^verbatim>\<open>v.error\<close>: on
  \<^verbatim>\<open>undefined\<close> and \<^verbatim>\<open>null\<close> the read throws a TypeError; on an object it is the
  property's value (the last binding of the name, as \<^verbatim>\<open>JSON.parse\<close> keeps it) or
  \<^verbatim>\<open>undefined\<close>; strings, numbers, booleans and arrays have no property of either name.
\<close>

fun get_prop :: "json option \<Rightarrow> string \<Rightarrow> type_error + json option" where
  "get_prop None k = Inl TypeError"
| "get_prop (Some JNull) k = Inl TypeError"
| "get_prop (Some (JObj kvs)) k = Inr (map_of (rev kvs) k)"
| "get_prop (Some v) k = Inr None"

text \<open>\<^verbatim>\<open>xs[i]\<close> on an array: \<^verbatim>\<open>undefined\<close> beyond the last element.\<close>

definition js_index :: "json list \<Rightarrow> nat \<Rightarrow> json option" where
  "js_index xs i = (if i < length xs then Some (xs ! i) else None)"

text \<open>
  The condition of the loop body, with the short-circuit evaluation of \<^verbatim>\<open>&&\<close>:
  \<^verbatim>\<open>body.results[i] && body.results[i].error && body.results[i].error !== ''\<close>.
  The result is the error to report (\<open>Some\<close>), or \<open>None\<close> when the condition is false.
\<close>

definition result_guard :: "json option \<Rightarrow> type_error + json option" where
  "result_guard v =
     (if \<not> truthy v then Inr None
      else
        (case get_prop v ''error'' of
           Inl t \<Rightarrow> Inl t
         | Inr e \<Rightarrow>
             if \<not> truthy e then Inr None
             else if e = Some (JStr []) then Inr None
             else Inr e))"

text \<open>
  \<^verbatim>\<open>for (var i = 0; i <= body.results.length; ++i) { if (...) return callback(new Error(...)) }\<close>,
  from index \<open>i\<close> on. The index runs up to the length inclusive.
\<close>

function scan_results :: "json list \<Rightarrow> nat \<Rightarrow> type_error + json option" where
  "scan_results rs i =
     (if i \<le> length rs
      then
        (case result_guard (js_index rs i) of
           Inl t \<Rightarrow> Inl t
         | Inr (Some e) \<Rightarrow> Inr (Some e)
         | Inr None \<Rightarrow> scan_results rs (Suc i))
      else Inr None)"
  by pat_completeness auto
termination
  by (relation "measure (\<lambda>(rs, i). Suc (length rs) - i)") auto

declare scan_results.simps [simp del]

text \<open>\<^verbatim>\<open>_.isObject(body)\<close>: objects and arrays.\<close>

fun isObject :: "json option \<Rightarrow> bool" where
  "isObject (Some (JArr xs)) = True"
| "isObject (Some (JObj kvs)) = True"
| "isObject v = False"

text \<open>
  \<^verbatim>\<open>if (_.isObject(body) && body.results && _.isArray(body.results)) { for ... }\<close>:
  the error found by the loop, if any.
\<close>

definition scan_body :: "json option \<Rightarrow> type_error + json option" where
  "scan_body body =
     (if isObject body
      then
        (case get_prop body ''results'' of
           Inl t \<Rightarrow> Inl t
         | Inr (Some (JArr rs)) \<Rightarrow> scan_results rs 0
         | Inr v \<Rightarrow> Inr None)
      else Inr None)"

record response =
  statusCode :: int

text \<open>
  What the function returned by \<^verbatim>\<open>_parseCallback(callback)\<close> does with \<^verbatim>\<open>(err, res, body)\<close>:
  it returns without calling anything, calls \<^verbatim>\<open>callback(err)\<close> with the transport's own
  error (\<open>Given\<close>) or with \<^verbatim>\<open>new Error(v)\<close> (\<open>New\<close>), calls \<^verbatim>\<open>callback(null, v)\<close>, or
  throws a TypeError.
\<close>

datatype 'e error_obj = Given 'e | New "json option"

datatype 'e outcome =
  NoCall
  | Report "'e error_obj"
  | Deliver "json option"
  | Throws type_error

text \<open>
  \<^verbatim>\<open>_parseCallback\<close>. \<open>has_callback\<close> is \<^verbatim>\<open>typeof callback !== 'undefined'\<close>; \<open>err\<close> is
  the transport's error or \<^verbatim>\<open>null\<close>; \<open>res\<close> is read only when \<open>err\<close> is \<^verbatim>\<open>null\<close>.
\<close>

definition parseCallback :: "bool \<Rightarrow> 'e option \<Rightarrow> response \<Rightarrow> json option \<Rightarrow> 'e outcome" where
  "parseCallback has_callback err res body =
     (if \<not> has_callback then NoCall
      else
        (case err of
           Some e \<Rightarrow> Report (Given e)
         | None \<Rightarrow>
             if statusCode res < 200 \<or> statusCode res \<ge> 300
             then
               (case get_prop body ''error'' of
                  Inl t \<Rightarrow> Throws t
                | Inr e \<Rightarrow> Report (New (if truthy e then e else body)))
             else
               (case scan_body body of
                  Inl t \<Rightarrow> Throws t
                | Inr (Some e) \<Rightarrow> Report (New (Some e))
                | Inr None \<Rightarrow>
                    if body = None then Report (New (Some (JStr ''body is undefined'')))
                    else
                      (case get_prop body ''results'' of
                         Inl t \<Rightarrow> Throws t
                       | Inr v \<Rightarrow> Deliver v))))"

text \<open>
  The reading of the loop as a scan of the elements: the non-empty (truthy) \<^verbatim>\<open>error\<close>
  field an element of the results array carries, if any, and the first such error of an
  array.
\<close>

fun element_error :: "json \<Rightarrow> json option" where
  "element_error (JObj kvs) =
     (case map_of (rev kvs) ''error'' of
        Some e \<Rightarrow> if truthy (Some e) then Some e else None
      | None \<Rightarrow> None)"
| "element_error v = None"

fun first_error :: "json list \<Rightarrow> json option" where
  "first_error [] = None"
| "first_error (r # rs) = (case element_error r of Some e \<Rightarrow> Some e | None \<Rightarrow> first_error rs)"

text \<open>
  \<^verbatim>\<open>body.results\<close> of a body that is neither \<^verbatim>\<open>undefined\<close> nor \<^verbatim>\<open>null\<close>, and the
  elements of \<^verbatim>\<open>body.results\<close> when it is an array.
\<close>

definition body_results :: "json option \<Rightarrow> json option" where
  "body_results body = (case get_prop body ''results'' of Inl t \<Rightarrow> None | Inr v \<Rightarrow> v)"

definition results_elements :: "json option \<Rightarrow> json list" where
  "results_elements body = (case body_results body of Some (JArr rs) \<Rightarrow> rs | _ \<Rightarrow> [])"

text \<open>
  The four conditions under which an error is to be reported: the transport returned
  an error, the status code is below 200 or at or above 300, some element of
  \<^verbatim>\<open>body.results\<close> carries a non-empty error, the body is \<^verbatim>\<open>undefined\<close>.
\<close>

definition error_expected :: "'e option \<Rightarrow> response \<Rightarrow> json option \<Rightarrow> bool" where
  "error_expected err res body =
     (err \<noteq> None \<or> statusCode res < 200 \<or> statusCode res \<ge> 300
      \<or> (\<exists>r \<in> set (results_elements body). element_error r \<noteq> None)
      \<or> body = None)"

fun is_report :: "'e outcome \<Rightarrow> bool" where
  "is_report (Report e) = True"
| "is_report out = False"

text \<open>
  The transport outcomes on which the function reads a property of a \<^verbatim>\<open>null\<close> or
  \<^verbatim>\<open>undefined\<close> body: \<^verbatim>\<open>body.error\<close> under a status outside 200..299, or
  \<^verbatim>\<open>body.results\<close> of a \<^verbatim>\<open>null\<close> body.
\<close>

definition reads_missing_body :: "'e option \<Rightarrow> response \<Rightarrow> json option \<Rightarrow> bool" where
  "reads_missing_body err res body =
     (err = None \<and>
      (body = Some JNull \<or> (body = None \<and> (statusCode res < 200 \<or> statusCode res \<ge> 300))))"

section \<open>InfluxDB: the constructor\<close>

text \<open>
  The option values the constructor looks at are strings and numbers, possibly
  \<^verbatim>\<open>undefined\<close> (an absent key) or \<^verbatim>\<open>null\<close>.
\<close>

datatype jsval = Undefined | Null | Str string | Num int

fun js_truthy :: "jsval \<Rightarrow> bool" where
  "js_truthy Undefined = False"
| "js_truthy Null = False"
| "js_truthy (Str s) = (s \<noteq> [])"
| "js_truthy (Num n) = (n \<noteq> 0)"

text \<open>\<^verbatim>\<open>a || b\<close>\<close>

definition js_or :: "jsval \<Rightarrow> jsval \<Rightarrow> jsval" where
  "js_or a b = (if js_truthy a then a else b)"

text \<open>
  A host descriptor (\<^verbatim>\<open>HostConfig\<close>, also what \<^verbatim>\<open>parseOptionsUrl\<close> returns), an entry of
  the \<^verbatim>\<open>hosts\<close> array (a descriptor or a URL string), and the options object: the keys of
  a descriptor at top level, \<^verbatim>\<open>hosts\<close> (\<open>None\<close> when the key is absent) and
  \<^verbatim>\<open>timePrecision\<close>.
\<close>

record host_config =
  host :: jsval
  port :: jsval
  protocol :: jsval
  username :: jsval
  password :: jsval
  database :: jsval

datatype host_entry = HostUrl string | HostObj host_config

record options = host_config +
  hosts :: "host_entry list option"
  timePrecision :: jsval

text \<open>\<^verbatim>\<open>const defaultHost = Object.freeze({ host: '127.0.0.1', protocol: 'http', port: 8086 })\<close>\<close>

definition defaultHost :: host_config where
  "defaultHost =
     \<lparr>host = Str ''127.0.0.1'', port = Num 8086, protocol = Str ''http'',
      username = Undefined, password = Undefined, database = Undefined\<rparr>"

text \<open>
  What \<^verbatim>\<open>url.parse\<close> of Node returns, as far as \<^verbatim>\<open>parseOptionsUrl\<close> reads it (\<open>None\<close> is
  \<^verbatim>\<open>null\<close>). \<^verbatim>\<open>url.parse\<close> itself is a library function and a parameter of the model.
\<close>

record parsed_url =
  url_hostname :: "string option"
  url_port :: "string option"
  url_protocol :: "string option"
  url_auth :: "string option"
  url_pathname :: "string option"

definition nullable :: "string option \<Rightarrow> jsval" where
  "nullable v = (case v of None \<Rightarrow> Null | Some s \<Rightarrow> Str s)"

text \<open>\<^verbatim>\<open>s.split(c)\<close> for a one-character separator.\<close>

fun js_split :: "char \<Rightarrow> string \<Rightarrow> string list" where
  "js_split c [] = [[]]"
| "js_split c (x # xs) =
     (if x = c then [] # js_split c xs
      else (case js_split c xs of w # ws \<Rightarrow> (x # w) # ws | [] \<Rightarrow> [[x]]))"

text \<open>
  \<^verbatim>\<open>parseOptionsUrl\<close>. \<^verbatim>\<open>parsed.pathname.length\<close> throws a TypeError when the pathname
  is \<^verbatim>\<open>null\<close>.
\<close>

definition parseOptionsUrl :: "(string \<Rightarrow> parsed_url) \<Rightarrow> string \<Rightarrow> type_error + host_config" where
  "parseOptionsUrl parse addr =
     (let parsed = parse addr;
          options0 =
            \<lparr>host = nullable (url_hostname parsed), port = nullable (url_port parsed),
             protocol = nullable (url_protocol parsed),
             username = Undefined, password = Undefined, database = Undefined\<rparr>;
          options1 =
            (case url_auth parsed of
               None \<Rightarrow> options0
             | Some a \<Rightarrow>
                 if a = [] then options0
                 else
                   (case js_split CHR '':'' a of
                      [] \<Rightarrow> options0
                    | [u] \<Rightarrow> options0\<lparr>username := Str u, password := Undefined\<rparr>
                    | u # pw # rest \<Rightarrow> options0\<lparr>username := Str u, password := Str pw\<rparr>))
      in
        (case url_pathname parsed of
           None \<Rightarrow> Inl TypeError
         | Some pn \<Rightarrow>
             Inr (if length pn > 1 then options1\<lparr>database := Str (drop 1 pn)\<rparr> else options1)))"

text \<open>The argument of the constructor: nothing, an address, or an options object.\<close>

datatype ctor_arg = ArgUndefined | ArgUrl string | ArgObject options

text \<open>An object with no key, and the object \<^verbatim>\<open>parseOptionsUrl\<close> returns, as options.\<close>

definition no_options :: options where
  "no_options =
     \<lparr>host = Undefined, port = Undefined, protocol = Undefined, username = Undefined,
      password = Undefined, database = Undefined, hosts = None, timePrecision = Undefined\<rparr>"

definition as_options :: "host_config \<Rightarrow> options" where
  "as_options h =
     \<lparr>host = host h, port = port h, protocol = protocol h, username = username h,
      password = password h, database = database h, hosts = None, timePrecision = Undefined\<rparr>"

text \<open>
  \<^verbatim>\<open>_.defaults({}, options, defaultOptions)\<close> on the keys other than \<^verbatim>\<open>hosts\<close>: a key
  that resolves to \<^verbatim>\<open>undefined\<close> takes the value of \<^verbatim>\<open>defaultOptions\<close>
  (\<^verbatim>\<open>timePrecision: 'ms', username: 'root', password: 'root'\<close> and the keys of
  \<^verbatim>\<open>defaultHost\<close>).
\<close>

definition js_default :: "jsval \<Rightarrow> jsval \<Rightarrow> jsval" where
  "js_default v d = (if v = Undefined then d else v)"

definition fill_defaults :: "options \<Rightarrow> options" where
  "fill_defaults given =
     given\<lparr>host := js_default (host given) (host defaultHost),
           port := js_default (port given) (port defaultHost),
           protocol := js_default (protocol given) (protocol defaultHost),
           username := js_default (username given) (Str ''root''),
           password := js_default (password given) (Str ''root''),
           timePrecision := js_default (timePrecision given) (Str ''ms'')\<rparr>"

text \<open>\<^verbatim>\<open>_.pick(options, ['username', 'password', 'protocol'])\<close>: an object of these three keys.\<close>

definition pick_seed :: "options \<Rightarrow> host_config" where
  "pick_seed opts =
     \<lparr>host = Undefined, port = Undefined, protocol = protocol opts,
      username = username opts, password = password opts, database = Undefined\<rparr>"

text \<open>
  \<^verbatim>\<open>options.hosts.forEach(host => { ... this._pool.addHost(...) })\<close>. The Pool is not among
  the sources; the effect of the loop on it is the list of the \<^verbatim>\<open>addHost(host, port, protocol)\<close>
  calls, in order. A URL entry whose parse throws ends the loop with the TypeError.
\<close>

fun add_hosts ::
  "(string \<Rightarrow> parsed_url) \<Rightarrow> host_entry list \<Rightarrow> (jsval \<times> jsval \<times> jsval) list
     \<Rightarrow> type_error + (jsval \<times> jsval \<times> jsval) list" where
  "add_hosts parse [] calls = Inr calls"
| "add_hosts parse (e # es) calls =
     (case (case e of HostUrl s \<Rightarrow> parseOptionsUrl parse s | HostObj h \<Rightarrow> Inr h) of
        Inl t \<Rightarrow> Inl t
      | Inr h \<Rightarrow>
          add_hosts parse es
            (calls @ [(js_or (host h) (host defaultHost), js_or (port h) (port defaultHost),
                       js_or (protocol h) (protocol defaultHost))]))"

text \<open>
  The constructed instance: \<^verbatim>\<open>this._options\<close> and the hosts registered in \<^verbatim>\<open>this._pool\<close>.
\<close>

record InfluxDB =
  instance_options :: options
  pool_hosts :: "(jsval \<times> jsval \<times> jsval) list"

text \<open>
  The constructor. \<^verbatim>\<open>defaultOptions\<close> is frozen, but the array under its key
  \<^verbatim>\<open>hosts\<close> is not, and \<^verbatim>\<open>_.defaults\<close> copies the reference: when the caller gives no
  \<^verbatim>\<open>hosts\<close>, \<^verbatim>\<open>options.hosts\<close> is this one array of the module, and the \<^verbatim>\<open>push\<close>
  changes it for every later construction. \<open>shared\<close> is the content of that array before
  the call; the result carries its content after the call.
\<close>

definition "constructor" ::
  "(string \<Rightarrow> parsed_url) \<Rightarrow> host_entry list \<Rightarrow> ctor_arg
     \<Rightarrow> (type_error + InfluxDB) \<times> host_entry list" where
  "constructor parse shared arg =
     (case (case arg of
              ArgUndefined \<Rightarrow> Inr no_options
            | ArgUrl s \<Rightarrow> map_sum id as_options (parseOptionsUrl parse s)
            | ArgObject given \<Rightarrow> Inr given) of
        Inl t \<Rightarrow> (Inl t, shared)
      | Inr given \<Rightarrow>
          (let filled = fill_defaults given;
               hs = (case hosts given of None \<Rightarrow> shared | Some xs \<Rightarrow> xs);
               hs' = (if length hs = 0 then hs @ [HostObj (pick_seed filled)] else hs);
               shared' = (case hosts given of None \<Rightarrow> hs' | Some xs \<Rightarrow> shared)
           in
             (case add_hosts parse hs' [] of
                Inl t \<Rightarrow> (Inl t, shared')
              | Inr calls \<Rightarrow>
                  (Inr \<lparr>instance_options = filled\<lparr>hosts := Some hs'\<rparr>, pool_hosts = calls\<rparr>,
                   shared'))))"

text \<open>
  The content of the module's array after a sequence of constructions, the first of
  which finds it empty (\<^verbatim>\<open>hosts: []\<close> in \<^verbatim>\<open>defaultOptions\<close>).
\<close>

definition constructions :: "(string \<Rightarrow> parsed_url) \<Rightarrow> ctor_arg list \<Rightarrow> host_entry list" where
  "constructions parse args = foldl (\<lambda>shared arg. snd (constructor parse shared arg)) [] args"

text \<open>
  The contents the module's array can have: empty, or the one descriptor a construction
  seeded, which has neither a \<^verbatim>\<open>host\<close> nor a \<^verbatim>\<open>port\<close> key.
\<close>

fun seeded_only :: "host_entry list \<Rightarrow> bool" where
  "seeded_only [] = True"
| "seeded_only [HostObj h] = (host h = Undefined \<and> port h = Undefined)"
| "seeded_only sh = False"

section \<open>The exponential strategy escalates up to its cap\<close>

lemma exp_next_shape:
  "backoff_next (Exponential c a) = (d, b') \<Longrightarrow>
     d = min (base c * multiplier c ^ a) (cap c)
     \<and> (b' = Exponential c a \<or> b' = Exponential c (Suc a))"
  by (auto simp: Let_def split: if_splits)

lemma exp_raw_mono:
  assumes m: "1 \<le> multiplier c"
  shows "min (base c * multiplier c ^ a) (cap c) \<le> min (base c * multiplier c ^ Suc a) (cap c)"
proof -
  have "multiplier c ^ a * 1 \<le> multiplier c ^ a * multiplier c"
    using m by (rule mult_le_mono2)
  then have "base c * multiplier c ^ a \<le> base c * multiplier c ^ Suc a"
    by (simp add: mult.commute)
  then show ?thesis by (rule min.mono) simp
qed

lemma exp_delays_bounds:
  "1 \<le> multiplier c \<Longrightarrow> x \<in> set (delays spec_strategy (Exponential c a) k) \<Longrightarrow>
     min (base c * multiplier c ^ a) (cap c) \<le> x \<and> x \<le> cap c"
proof (induction k arbitrary: a)
  case 0
  then show ?case by simp
next
  case (Suc k)
  obtain d b' where nx: "backoff_next (Exponential c a) = (d, b')" by fastforce
  from exp_next_shape[OF nx] have d: "d = min (base c * multiplier c ^ a) (cap c)"
    and b': "b' = Exponential c a \<or> b' = Exponential c (Suc a)" by auto
  from Suc.prems(2) nx have "x = d \<or> x \<in> set (delays spec_strategy b' k)"
    by (simp add: spec_strategy_def)
  then show ?case
  proof
    assume "x = d"
    with d show ?thesis by simp
  next
    assume xin: "x \<in> set (delays spec_strategy b' k)"
    from b' show ?thesis
    proof
      assume "b' = Exponential c a"
      with xin Suc.IH[OF Suc.prems(1)] show ?thesis by blast
    next
      assume e: "b' = Exponential c (Suc a)"
      with xin Suc.IH[OF Suc.prems(1), of "Suc a"]
      have "min (base c * multiplier c ^ Suc a) (cap c) \<le> x \<and> x \<le> cap c" by blast
      with exp_raw_mono[OF Suc.prems(1), of a] show ?thesis by linarith
    qed
  qed
qed

lemma exp_delays_sorted:
  "1 \<le> multiplier c \<Longrightarrow> sorted (delays spec_strategy (Exponential c a) k)"
proof (induction k arbitrary: a)
  case 0
  then show ?case by simp
next
  case (Suc k)
  obtain d b' where nx: "backoff_next (Exponential c a) = (d, b')" by fastforce
  from exp_next_shape[OF nx] have d: "d = min (base c * multiplier c ^ a) (cap c)"
    and b': "b' = Exponential c a \<or> b' = Exponential c (Suc a)" by auto
  note le = exp_raw_mono[OF Suc.prems, of a]
  have "\<forall>x \<in> set (delays spec_strategy b' k). d \<le> x"
  proof
    fix x assume xin: "x \<in> set (delays spec_strategy b' k)"
    from b' show "d \<le> x"
    proof
      assume "b' = Exponential c a"
      with xin exp_delays_bounds[OF Suc.prems] d show ?thesis by blast
    next
      assume "b' = Exponential c (Suc a)"
      with xin exp_delays_bounds[OF Suc.prems, of x "Suc a" k]
      have "min (base c * multiplier c ^ Suc a) (cap c) \<le> x" by blast
      with le d show ?thesis by linarith
    qed
  qed
  moreover have "sorted (delays spec_strategy b' k)"
    using b' Suc.IH[OF Suc.prems] by auto
  ultimately show ?case using nx by (simp add: spec_strategy_def)
qed

text \<open>
  C3. For the exponential strategy with a multiplier of at least 1 (an escalating
  schedule), from any state: the delays of any number of consecutive \<^verbatim>\<open>next()\<close> calls
  with no \<^verbatim>\<open>reset()\<close> in between never decrease, each is at most the configured
  maximum, and after a \<^verbatim>\<open>reset()\<close> the next \<^verbatim>\<open>next()\<close> returns the baseline delay, the
  one a fresh strategy returns first.
\<close>

theorem exponential_backoff_monotone_capped:
  assumes "1 \<le> multiplier c"
  shows "sorted (delays spec_strategy (Exponential c a) k)
       \<and> (\<forall>d \<in> set (delays spec_strategy (Exponential c a) k). d \<le> cap c)
       \<and> fst (next spec_strategy (reset spec_strategy (Exponential c a)))
           = fst (next spec_strategy (new_exponential c))
       \<and> fst (next spec_strategy (reset spec_strategy (Exponential c a))) = min (base c) (cap c)"
  using assms exp_delays_sorted[of c a k] exp_delays_bounds[of c _ a k]
  by (auto simp: spec_strategy_def new_exponential_def Let_def)

theorem exponential_backoff_monotone_capped_witness:
  "(1::nat) \<le> multiplier \<lparr>base = 100, multiplier = 2, cap = 1000\<rparr>
   \<and> delays spec_strategy (Exponential \<lparr>base = 100, multiplier = 2, cap = 1000\<rparr> 1) 6
       = [200, 400, 800, 1000, 1000, 1000]
   \<and> sorted (delays spec_strategy (Exponential \<lparr>base = 100, multiplier = 2, cap = 1000\<rparr> 1) 6)
   \<and> list_all (\<lambda>d. d \<le> 1000)
         (delays spec_strategy (Exponential \<lparr>base = 100, multiplier = 2, cap = 1000\<rparr> 1) 6)
   \<and> fst (next spec_strategy
        (reset spec_strategy (Exponential \<lparr>base = 100, multiplier = 2, cap = 1000\<rparr> 1))) = 100"
proof -
  have run: "delays spec_strategy (Exponential \<lparr>base = 100, multiplier = 2, cap = 1000\<rparr> 1) 6
       = [200, 400, 800, 1000, 1000, 1000]"
    by code_simp
  show ?thesis
    using exponential_backoff_monotone_capped[of "\<lparr>base = 100, multiplier = 2, cap = 1000\<rparr>" 1 6]
    unfolding run by (simp add: list_all_iff)
qed

section \<open>Host\<close>

text \<open>
  C4. \<^verbatim>\<open>success()\<close> does nothing but reset the host's backoff strategy. With the
  strategies of the spec, the next \<^verbatim>\<open>fail()\<close> (its \<^verbatim>\<open>next()\<close> call) then returns the
  baseline delay again, whatever the backoff state was: the delay a host with a fresh
  strategy of the same configuration returns.
\<close>

theorem success_resets_backoff:
  "success S h = h\<lparr>backoff := reset S (backoff h)\<rparr>
   \<and> fst (fail spec_strategy (success spec_strategy g)) = baseline (backoff g)
   \<and> fst (fail spec_strategy (success spec_strategy \<lparr>url = u, backoff = Exponential c a\<rparr>))
       = fst (fail spec_strategy \<lparr>url = u, backoff = new_exponential c\<rparr>)"
  by (cases "backoff g")
     (simp_all add: success_def fail_def spec_strategy_def new_exponential_def Let_def
        split: prod.splits)

text \<open>
  C5. \<^verbatim>\<open>fail()\<close> returns exactly the delay that \<^verbatim>\<open>next()\<close> of the host's backoff
  strategy produces on the current state, and the host afterwards differs from the host
  before only in its backoff state, which is the one \<^verbatim>\<open>next()\<close> left.
\<close>

theorem fail_returns_next_delay:
  "fail S h = (fst (next S (backoff h)), h\<lparr>backoff := snd (next S (backoff h))\<rparr>)"
  by (simp add: fail_def split: prod.splits)

text \<open>
  C6. \<^verbatim>\<open>fail()\<close> on a host of a pool leaves the pool's collections and cursor as they
  are, so the host is a member of \<open>available\<close> or \<open>disabled\<close> exactly as before; in
  the store of Host objects only the backoff state of that one host changes.
\<close>

theorem fail_keeps_membership:
  "snd (fail_at S r p)
     = p\<lparr>host_at := (host_at p)(r := (host_at p r)\<lparr>backoff := snd (next S (backoff (host_at p r)))\<rparr>)\<rparr>
   \<and> available (snd (fail_at S r p)) = available p
   \<and> disabled (snd (fail_at S r p)) = disabled p
   \<and> cursor (snd (fail_at S r p)) = cursor p
   \<and> url (host_at (snd (fail_at S r p)) r') = url (host_at p r')"
  by (simp add: fail_at_def fail_def split: prod.splits)

lemma url_host_step: "url (host_step S h x) = url h"
  by (cases x) (simp_all add: fail_def success_def split: prod.splits)

lemma url_foldl_host_step: "url (foldl (host_step S) h ops) = url h"
  by (induction ops arbitrary: h) (simp_all add: url_host_step)

text \<open>
  C7. The \<^verbatim>\<open>url\<close> of a Host is the one given at construction after \<^verbatim>\<open>fail()\<close>, after
  \<^verbatim>\<open>success()\<close>, and after any sequence of the two.
\<close>

theorem url_immutable:
  "url (snd (fail S h)) = url h \<and> url (success S h) = url h \<and> url (host_run S h ops) = url h"
  by (simp add: host_run_def url_foldl_host_step)
     (simp add: fail_def success_def split: prod.splits)

section \<open>Pool: dispatch\<close>

text \<open>
  C2. When \<open>available\<close> is empty at step 1 the dispatch algorithm fails at once with
  \<open>NoHostsAvailableError\<close>: the Transport is not invoked, no host is touched and the
  pool is left as it is, the disabled hosts still disabled. For a whole \<^verbatim>\<open>dispatch\<close> call
  the state at step 1 is the one the lazy \<^verbatim>\<open>reclaim()\<close> leaves.
\<close>

theorem dispatch_no_hosts_available:
  "(available p = [] \<longrightarrow> attempts S F T now rq n p = (Inl NoHostsAvailableError, [], p))
   \<and> (available (reclaim now p) = [] \<longrightarrow>
        dispatch S F T now rq p = (Inl NoHostsAvailableError, [], reclaim now p))"
  by (simp add: dispatch_def attempts.simps[of S F T now rq _ p]
        attempts.simps[of S F T now rq _ "reclaim now p"])

theorem dispatch_no_hosts_available_witness:
  "available \<lparr>host_at = (\<lambda>r. \<lparr>url = ''http://a:8086'', backoff = Constant 1000\<rparr>),
              available = [], disabled = [(0, 1000)], cursor = 0\<rparr> = []
   \<and> attempts spec_strategy (\<lambda>st. 500 \<le> st) (\<lambda>u rq. Response 200 ''ok'') 10 () 1
        \<lparr>host_at = (\<lambda>r. \<lparr>url = ''http://a:8086'', backoff = Constant 1000\<rparr>),
         available = [], disabled = [(0, 1000)], cursor = 0\<rparr>
      = (Inl NoHostsAvailableError, [],
         \<lparr>host_at = (\<lambda>r. \<lparr>url = ''http://a:8086'', backoff = Constant 1000\<rparr>),
          available = [], disabled = [(0, 1000)], cursor = 0\<rparr>)
   \<and> dispatch spec_strategy (\<lambda>st. 500 \<le> st) (\<lambda>u rq. Response 200 ''ok'') 10 ()
        \<lparr>host_at = (\<lambda>r. \<lparr>url = ''http://a:8086'', backoff = Constant 1000\<rparr>),
         available = [], disabled = [(0, 1000)], cursor = 0\<rparr>
      = (Inl NoHostsAvailableError, [],
         \<lparr>host_at = (\<lambda>r. \<lparr>url = ''http://a:8086'', backoff = Constant 1000\<rparr>),
          available = [], disabled = [(0, 1000)], cursor = 0\<rparr>)"
  using dispatch_no_hosts_available[where S = spec_strategy and F = "\<lambda>st. 500 \<le> st"
      and T = "\<lambda>u rq. Response 200 ''ok''" and now = 10 and rq = "()" and n = 1
      and p = "\<lparr>host_at = (\<lambda>r. \<lparr>url = ''http://a:8086'', backoff = Constant 1000\<rparr>),
        available = [], disabled = [(0, 1000)], cursor = 0\<rparr>"]
  by (simp add: reclaim_def)

lemma reclaim_no_disabled: "disabled p = [] \<Longrightarrow> reclaim now p = p"
  by (simp add: reclaim_def)

lemma dispatch_healthy:
  assumes dis: "disabled p = []" and ne: "available p \<noteq> []"
    and ok: "\<forall>r \<in> set (available p). \<exists>resp. classify F (T (url (host_at p r)) rq) = Inr resp"
  shows "\<exists>res p'. dispatch S F T now rq p
            = (res, [url (host_at p (available p ! (cursor p mod length (available p))))], p')
          \<and> available p' = available p \<and> disabled p' = []
          \<and> cursor p' = (cursor p + 1) mod length (available p)
          \<and> (\<forall>r. url (host_at p' r) = url (host_at p r))"
proof -
  let ?r = "available p ! (cursor p mod length (available p))"
  have rin: "?r \<in> set (available p)" using ne by simp
  with ok obtain resp where c: "classify F (T (url (host_at p ?r)) rq) = Inr resp" by blast
  show ?thesis
    using dis ne c
    by (simp add: dispatch_def reclaim_no_disabled attempts.simps[of S F T now rq _ p]
          select_def success_at_def success_def)
qed

lemma dispatches_healthy:
  assumes "disabled p = []"
    and "\<forall>(T, now, rq) \<in> set cs. \<forall>r \<in> set (available p).
           \<exists>resp. classify F (T (url (host_at p r)) rq) = Inr resp"
    and "available p \<noteq> []"
  shows "fst (dispatches S F cs p)
           = map (\<lambda>k. url (host_at p (available p ! ((cursor p + k) mod length (available p)))))
               [0..<length cs]"
  using assms
proof (induction cs arbitrary: p)
  case Nil
  then show ?case by simp
next
  case (Cons c cs)
  obtain T now rq where c: "c = (T, now, rq)" by (cases c) auto
  let ?M = "length (available p)"
  have ok1: "\<forall>r \<in> set (available p). \<exists>resp. classify F (T (url (host_at p r)) rq) = Inr resp"
    using Cons.prems(2) c by auto
  from dispatch_healthy[where S=S and now=now and F=F and T=T and rq=rq and p=p,
      OF Cons.prems(1) Cons.prems(3) ok1]
  obtain res p' where d: "dispatch S F T now rq p
            = (res, [url (host_at p (available p ! (cursor p mod ?M)))], p')"
     and av: "available p' = available p" and di: "disabled p' = []"
     and cu: "cursor p' = (cursor p + 1) mod ?M"
     and ur: "\<And>r. url (host_at p' r) = url (host_at p r)" by blast
  have ok2: "\<forall>(T, now, rq) \<in> set cs. \<forall>r \<in> set (available p').
               \<exists>resp. classify F (T (url (host_at p' r)) rq) = Inr resp"
    using Cons.prems(2) av ur by auto
  have ne': "available p' \<noteq> []" using av Cons.prems(3) by simp
  have IH: "fst (dispatches S F cs p')
           = map (\<lambda>k. url (host_at p (available p ! ((cursor p + Suc k) mod ?M)))) [0..<length cs]"
    using Cons.IH[OF di ok2 ne'] by (simp add: av cu ur mod_add_left_eq)
  have "fst (dispatches S F (c # cs) p)
          = url (host_at p (available p ! (cursor p mod ?M))) # fst (dispatches S F cs p')"
    using c d by (simp split: prod.splits)
  also have "\<dots> = map (\<lambda>k. url (host_at p (available p ! ((cursor p + k) mod ?M))))
                     (0 # map Suc [0..<length cs])"
    by (simp add: IH comp_def)
  also have "0 # map Suc [0..<length cs] = [0..<length (c # cs)]"
    by (simp add: upt_conv_Cons map_Suc_upt del: upt_Suc)
  finally show ?case .
qed

lemma round_robin_inj_le:
  assumes "i \<le> j" "j < M" "(c + i) mod M = (c + j) mod (M::nat)"
  shows "i = j"
proof -
  have "M dvd (c + j) - (c + i)" using assms(1,3)
    by (metis add_le_cancel_left mod_eq_dvd_iff_nat)
  then have "M dvd j - i" by simp
  moreover have "j - i < M" using assms by simp
  ultimately have "j - i = 0" by (meson dvd_imp_le less_le_not_le not_gr_zero)
  then show ?thesis using assms(1) by simp
qed

lemma round_robin_inj:
  assumes "N \<le> M" "i < N" "j < N" "(c + i) mod M = (c + j) mod (M::nat)"
  shows "i = j"
proof (cases "i \<le> j")
  case True
  then show ?thesis using round_robin_inj_le[of i j M c] assms by simp
next
  case False
  then show ?thesis using round_robin_inj_le[of j i M c] assms by simp
qed

lemma round_robin_distinct:
  assumes d: "distinct (map f xs)" and N: "N \<le> length xs"
  shows "distinct (map (\<lambda>k. f (xs ! ((c + k) mod length xs))) [0..<N])"
proof -
  have inj: "inj_on (\<lambda>k. f (xs ! ((c + k) mod length xs))) {0..<N}"
  proof (rule inj_onI)
    fix i j assume i: "i \<in> {0..<N}" and j: "j \<in> {0..<N}"
      and e: "f (xs ! ((c + i) mod length xs)) = f (xs ! ((c + j) mod length xs))"
    have pos: "0 < length xs" using i N by auto
    have a: "(c + i) mod length xs < length (map f xs)"
      and b: "(c + j) mod length xs < length (map f xs)" using pos by simp_all
    have "(map f xs) ! ((c + i) mod length xs) = (map f xs) ! ((c + j) mod length xs)"
      using e pos by simp
    then have "(c + i) mod length xs = (c + j) mod length xs"
      using nth_eq_iff_index_eq[OF d a b] by blast
    then show "i = j" using round_robin_inj[OF N] i j by auto
  qed
  then show ?thesis by (simp add: distinct_map)
qed

text \<open>
  C1. A pool whose hosts are all available (none disabled, no two with the same URL)
  receives \<open>N\<close> dispatch calls, \<open>N\<close> at most the number \<open>M\<close> of hosts, and every host
  is healthy: the Transport's answer from each host to each of the requests is not a
  failure. Then the \<open>k\<close>-th call is sent to the host at position
  \<open>(cursor + k) mod M\<close> of \<open>available\<close>, the round-robin order of a cursor advanced
  modulo the size of \<open>available\<close>, and the hosts selected are pairwise distinct.
\<close>

theorem round_robin_selection:
  assumes "disabled p = []"
    and "distinct (map (\<lambda>r. url (host_at p r)) (available p))"
    and "\<forall>(T, now, rq) \<in> set cs. \<forall>r \<in> set (available p).
           \<exists>resp. classify F (T (url (host_at p r)) rq) = Inr resp"
    and "length cs \<le> length (available p)"
  shows "fst (dispatches S F cs p)
           = map (\<lambda>k. url (host_at p (available p ! ((cursor p + k) mod length (available p)))))
               [0..<length cs]
       \<and> distinct (fst (dispatches S F cs p))"
proof (cases "available p = []")
  case True
  with assms(4) show ?thesis by simp
next
  case False
  have sel: "fst (dispatches S F cs p)
           = map (\<lambda>k. url (host_at p (available p ! ((cursor p + k) mod length (available p)))))
               [0..<length cs]"
    using dispatches_healthy[OF assms(1) assms(3) False] .
  moreover have "distinct (map (\<lambda>k. (\<lambda>r. url (host_at p r))
                     (available p ! ((cursor p + k) mod length (available p)))) [0..<length cs])"
    using round_robin_distinct[OF assms(2) assms(4)] .
  ultimately show ?thesis by simp
qed

theorem round_robin_selection_witness:
  "fst (dispatches spec_strategy (\<lambda>st. 500 \<le> st)
         [(\<lambda>u rq. Response 200 ''ok'', 10, ()), (\<lambda>u rq. Response 204 [], 11, ())]
         \<lparr>host_at = (\<lambda>r. \<lparr>url = (if r = 0 then ''http://a:8086''
                                   else if r = 1 then ''http://b:8086'' else ''http://c:8086''),
                           backoff = Constant 1000\<rparr>),
          available = [0, 1, 2], disabled = [], cursor = 2\<rparr>)
     = [''http://c:8086'', ''http://a:8086'']
   \<and> distinct [''http://c:8086'', ''http://a:8086'']"
proof -
  let ?p = "\<lparr>host_at = (\<lambda>r. \<lparr>url = (if r = 0 then ''http://a:8086''
                                   else if r = 1 then ''http://b:8086'' else ''http://c:8086''),
                           backoff = Constant 1000\<rparr>),
          available = [0, 1, 2], disabled = [], cursor = 2\<rparr> :: backoff Pool"
  let ?cs = "[(\<lambda>u rq. Response 200 ''ok'', 10, ()), (\<lambda>u rq. Response 204 [], 11, ())]
              :: (unit transport \<times> nat \<times> unit) list"
  have h1: "disabled ?p = []" by simp
  have h2: "distinct (map (\<lambda>r. url (host_at ?p r)) (available ?p))" by simp
  have h3: "\<forall>(T, now, rq) \<in> set ?cs. \<forall>r \<in> set (available ?p).
              \<exists>resp. classify (\<lambda>st. 500 \<le> st) (T (url (host_at ?p r)) rq) = Inr resp"
    by simp
  have h4: "length ?cs \<le> length (available ?p)" by simp
  have u: "[0..<length ?cs] = [0, 1]" by (simp add: upt_conv_Cons)
  show ?thesis
    using round_robin_selection[OF h1 h2 h3 h4, of spec_strategy] unfolding u by simp
qed

section \<open>\<^verbatim>\<open>_parseCallback\<close>: the scan of the results\<close>

lemma result_guard_element: "result_guard (Some r) = Inr (element_error r)"
  by (cases r) (auto simp: result_guard_def split: option.splits)

lemma result_guard_undefined: "result_guard None = Inr None"
  by (simp add: result_guard_def)

lemma scan_results_from:
  "i \<le> length rs \<Longrightarrow> scan_results rs i = Inr (first_error (drop i rs))"
proof (induction rs i rule: scan_results.induct)
  case (1 rs i)
  show ?case
  proof (cases "i < length rs")
    case True
    then have d: "drop i rs = rs ! i # drop (Suc i) rs" by (simp add: Cons_nth_drop_Suc)
    have g: "result_guard (js_index rs i) = Inr (element_error (rs ! i))"
      using True by (simp add: js_index_def result_guard_element)
    show ?thesis
    proof (cases "element_error (rs ! i)")
      case None
      with 1 True g have "scan_results rs (Suc i) = Inr (first_error (drop (Suc i) rs))"
        by simp
      with None g True d show ?thesis
        by (simp add: scan_results.simps[of rs i])
    next
      case (Some e)
      with g True d show ?thesis by (simp add: scan_results.simps[of rs i])
    qed
  next
    case False
    with 1 have i: "i = length rs" by simp
    have g: "result_guard (js_index rs i) = Inr None"
      using i by (simp add: js_index_def result_guard_undefined)
    show ?thesis using i g
      by (simp add: scan_results.simps[of rs "length rs"]
            scan_results.simps[of rs "Suc (length rs)"])
  qed
qed

text \<open>
  C9. For every results array the loop, started at index 0 and run up to the length
  inclusive, never throws: the read at the index equal to the length yields
  \<^verbatim>\<open>undefined\<close>, which the truthiness test absorbs before \<^verbatim>\<open>.error\<close> is read. What the
  loop finds is the first non-empty error among the elements of the array, and nothing
  when no element carries one.
\<close>

theorem scan_results_is_first_error:
  "scan_results rs 0 = Inr (first_error rs)
   \<and> scan_results rs 0 \<noteq> Inl TypeError
   \<and> js_index rs (length rs) = None
   \<and> result_guard (js_index rs (length rs)) = Inr None"
  using scan_results_from[of 0 rs] by (simp add: js_index_def result_guard_def)

section \<open>\<^verbatim>\<open>_parseCallback\<close>: when an error is reported\<close>

lemma first_error_None_iff: "(first_error rs = None) = (\<forall>r \<in> set rs. element_error r = None)"
  by (induction rs) (auto split: option.splits)

lemma scan_body_eq: "scan_body body = Inr (first_error (results_elements body))"
proof (cases body)
  case None
  then show ?thesis by (simp add: scan_body_def results_elements_def body_results_def)
next
  case (Some b)
  show ?thesis
  proof (cases b)
    case (JObj kvs)
    show ?thesis
    proof (cases "map_of (rev kvs) ''results''")
      case None
      with Some JObj show ?thesis
        by (simp add: scan_body_def results_elements_def body_results_def)
    next
      case (Some v)
      with \<open>body = Some b\<close> JObj show ?thesis
        using scan_results_from[of 0]
        by (cases v) (simp_all add: scan_body_def results_elements_def body_results_def)
    qed
  qed (simp_all add: Some scan_body_def results_elements_def body_results_def)
qed

text \<open>
  With a callback, the function reports an error or delivers \<^verbatim>\<open>body.results\<close> on every
  transport outcome on which it reads no property of a missing body.
\<close>

lemma parseCallback_defined:
  assumes "\<not> reads_missing_body err res body"
  shows "is_report (parseCallback True err res body) = error_expected err res body
       \<and> (error_expected err res body
            \<or> parseCallback True err res body = Deliver (body_results body))"
proof (cases err)
  case (Some e)
  then show ?thesis by (simp add: parseCallback_def error_expected_def)
next
  case None
  note err = None
  show ?thesis
  proof (cases "statusCode res < 200 \<or> statusCode res \<ge> 300")
    case True
    with assms err have "body \<noteq> None" "body \<noteq> Some JNull"
      by (auto simp: reads_missing_body_def)
    then obtain t where "get_prop body ''error'' = Inr t"
      by (cases body; cases "the body") auto
    with True err show ?thesis by (auto simp: parseCallback_def error_expected_def)
  next
    case False
    with assms err have nn: "body \<noteq> Some JNull" by (auto simp: reads_missing_body_def)
    show ?thesis
    proof (cases "first_error (results_elements body)")
      case (Some e)
      then have "\<exists>r \<in> set (results_elements body). element_error r \<noteq> None"
        using first_error_None_iff[of "results_elements body"] by auto
      with Some False err show ?thesis
        by (simp add: parseCallback_def error_expected_def scan_body_eq)
    next
      case None
      then have no: "\<not> (\<exists>r \<in> set (results_elements body). element_error r \<noteq> None)"
        using first_error_None_iff[of "results_elements body"] by auto
      show ?thesis
      proof (cases body)
        case None
        with \<open>first_error (results_elements body) = None\<close> False err show ?thesis
          by (simp add: parseCallback_def error_expected_def scan_body_eq)
      next
        case (Some b)
        with nn obtain v where v: "get_prop body ''results'' = Inr v"
          by (cases b) auto
        with Some no \<open>first_error (results_elements body) = None\<close> False err show ?thesis
          by (simp add: parseCallback_def error_expected_def scan_body_eq body_results_def)
      qed
    qed
  qed
qed

text \<open>
  The outcomes on which the function reads a property of a missing body are exactly
  those on which it throws instead of calling the callback. Two of them: a status
  outside 200..299 with an \<^verbatim>\<open>undefined\<close> body, and a \<^verbatim>\<open>null\<close> body under status 200.
\<close>

lemma parseCallback_throws_iff:
  "(parseCallback True err res body = Throws TypeError) = reads_missing_body err res body"
proof (cases "reads_missing_body err res body")
  case True
  then show ?thesis
    by (auto simp: reads_missing_body_def parseCallback_def scan_body_def)
next
  case False
  from parseCallback_defined[OF False] have "parseCallback True err res body \<noteq> Throws TypeError"
    by (cases "error_expected err res body") auto
  with False show ?thesis by simp
qed

lemma parseCallback_throws:
  "parseCallback True (None :: string option) \<lparr>statusCode = 500\<rparr> None = Throws TypeError"
  "parseCallback True (None :: string option) \<lparr>statusCode = 200\<rparr> (Some JNull) = Throws TypeError"
  by (simp_all add: parseCallback_def scan_body_def)




section \<open>The constructor seeds the default host\<close>

lemma seeded_only_cases:
  "seeded_only sh \<Longrightarrow>
     sh = [] \<or> (\<exists>h. sh = [HostObj h] \<and> host h = Undefined \<and> port h = Undefined)"
  by (cases sh rule: seeded_only.cases) auto

lemma seeded_only_constructor:
  assumes "seeded_only sh"
  shows "seeded_only (snd (constructor parse sh arg))"
proof -
  from seeded_only_cases[OF assms] show ?thesis
  proof
    assume "sh = []"
    then show ?thesis
      by (auto simp: constructor_def pick_seed_def Let_def
               split: sum.splits option.splits ctor_arg.splits)
  next
    assume "\<exists>h. sh = [HostObj h] \<and> host h = Undefined \<and> port h = Undefined"
    then show ?thesis
      by (auto simp: constructor_def pick_seed_def Let_def
               split: sum.splits option.splits ctor_arg.splits)
  qed
qed

lemma seeded_only_foldl:
  "seeded_only sh \<Longrightarrow>
     seeded_only (foldl (\<lambda>shared arg. snd (constructor parse shared arg)) sh args)"
  by (induction args arbitrary: sh) (simp_all add: seeded_only_constructor)

lemma seeded_only_constructions: "seeded_only (constructions parse prev)"
  unfolding constructions_def by (rule seeded_only_foldl) simp

lemma constructor_default_host:
  assumes sh: "seeded_only sh" and hs: "hosts given = None \<or> hosts given = Some []"
  shows "\<exists>inst proto. fst (constructor parse sh (ArgObject given)) = Inr inst
           \<and> pool_hosts inst = [(Str ''127.0.0.1'', Num 8086, proto)]"
proof -
  from seeded_only_cases[OF sh] show ?thesis
  proof
    assume "sh = []"
    with hs show ?thesis
      by (auto simp: constructor_def pick_seed_def Let_def js_or_def defaultHost_def)
  next
    assume "\<exists>h. sh = [HostObj h] \<and> host h = Undefined \<and> port h = Undefined"
    with hs show ?thesis
      by (auto simp: constructor_def pick_seed_def Let_def js_or_def defaultHost_def)
  qed
qed

text \<open>
  C10. After any earlier constructions, a construction from an options object whose
  \<^verbatim>\<open>hosts\<close> is absent or empty succeeds and registers exactly one host in the pool, with
  the hostname 127.0.0.1 and the port 8086, whatever \<^verbatim>\<open>host\<close> and \<^verbatim>\<open>port\<close> the options
  have at top level.
\<close>

theorem constructor_seeds_default_host:
  assumes "hosts given = None \<or> hosts given = Some []"
  shows "\<exists>inst proto.
           fst (constructor parse (constructions parse prev) (ArgObject given)) = Inr inst
           \<and> pool_hosts inst = [(Str ''127.0.0.1'', Num 8086, proto)]"
  using constructor_default_host[OF seeded_only_constructions assms] .

theorem constructor_seeds_default_host_witness:
  "hosts (no_options\<lparr>host := Str ''db.example.com'', port := Num 9999\<rparr>) = None
   \<and> (\<exists>inst proto.
        fst (constructor
               (\<lambda>s. \<lparr>url_hostname = None, url_port = None, url_protocol = None,
                      url_auth = None, url_pathname = None\<rparr>)
               (constructions
                  (\<lambda>s. \<lparr>url_hostname = None, url_port = None, url_protocol = None,
                         url_auth = None, url_pathname = None\<rparr>)
                  [ArgObject (no_options\<lparr>protocol := Str ''https''\<rparr>)])
               (ArgObject (no_options\<lparr>host := Str ''db.example.com'', port := Num 9999\<rparr>)))
          = Inr inst
        \<and> pool_hosts inst = [(Str ''127.0.0.1'', Num 8086, proto)])"
proof -
  have h: "hosts (no_options\<lparr>host := Str ''db.example.com'', port := Num 9999\<rparr>) = None
           \<or> hosts (no_options\<lparr>host := Str ''db.example.com'', port := Num 9999\<rparr>) = Some []"
    by (simp add: no_options_def)
  show ?thesis
    using constructor_seeds_default_host[OF h,
        of "\<lambda>s. \<lparr>url_hostname = None, url_port = None, url_protocol = None,
                  url_auth = None, url_pathname = None\<rparr>"
           "[ArgObject (no_options\<lparr>protocol := Str ''https''\<rparr>)]"]
    by (simp add: no_options_def)
qed

end
